theory Spec2Isabelle
  imports Main
begin

section \<open>Strings\<close>

text \<open>
  Strings are lists of characters and a length counts list elements; a character is a
  code unit below 256. JavaScript's \<^verbatim>\<open>trim\<close> (and the trim sanitizer of the
  request validation, and the \<^verbatim>\<open>trim: true\<close> setter of the schema) removes
  white space at both ends. Of the characters JavaScript counts as white space, the
  ones below 256 are tab, line feed, vertical tab, form feed, carriage return, space
  and the no-break space U+00A0; the others lie outside the character type, as do
  characters that take two UTF-16 units.
\<close>

definition is_space :: "char \<Rightarrow> bool" where
  "is_space c \<longleftrightarrow>
     c = CHR '' '' \<or> c = CHR 0x09 \<or> c = CHR 0x0A \<or> c = CHR 0x0B \<or> c = CHR 0x0C \<or> c = CHR 0x0D
     \<or> c = CHR 0xA0"

definition trim :: "string \<Rightarrow> string" where
  "trim s = rev (dropWhile is_space (rev (dropWhile is_space s)))"

section \<open>The session model (backend/models/Session.js)\<close>

datatype status = Draft | Published

text \<open>
  A stored document. \<open>sid\<close> is the document's \<^verbatim>\<open>_id\<close>, \<open>user_id\<close> its owner.
  Times are milliseconds as natural numbers.
\<close>

record session =
  sid :: nat
  user_id :: nat
  title :: string
  tags :: "string list"
  json_file_url :: string
  status :: status
  created_at :: nat
  updated_at :: nat

text \<open>
  The collection: documents keyed by \<^verbatim>\<open>_id\<close>, which the database keeps unique.
\<close>

type_synonym store = "nat \<rightharpoonup> session"

text \<open>
  The validators the schema declares on the paths a write sets: title required and at
  most 200 long, every tag at most 50 long, json_file_url required. They run on
  \<^verbatim>\<open>save()\<close> and, because of \<^verbatim>\<open>runValidators: true\<close>, on
  \<^verbatim>\<open>findOneAndUpdate\<close>, on the values after the schema's trim setters.
\<close>

definition validators_ok :: "string \<Rightarrow> string list \<Rightarrow> string \<Rightarrow> bool" where
  "validators_ok t tg u \<longleftrightarrow>
     t \<noteq> [] \<and> length t \<le> 200 \<and> list_all (\<lambda>x. length x \<le> 50) tg \<and> u \<noteq> []"

text \<open>
  \<^verbatim>\<open>Session.findOneAndUpdate({_id: k, user_id: uid}, update, {new: true})\<close>:
  the document with that id, if the caller owns it, is replaced by its update and
  returned; otherwise the result is null and nothing is written.
\<close>

definition findOneAndUpdate ::
  "nat \<Rightarrow> nat \<Rightarrow> (session \<Rightarrow> session) \<Rightarrow> store \<Rightarrow> session option \<times> store" where
  "findOneAndUpdate k uid upd db =
     (case db k of
        None \<Rightarrow> (None, db)
      | Some r \<Rightarrow> if user_id r = uid then (Some (upd r), db(k \<mapsto> upd r)) else (None, db))"

section \<open>Request validation (backend/routes/sessions.js)\<close>

text \<open>
  The \<^verbatim>\<open>tags\<close> value of a request body: the field is absent, or it is a value
  that is not an array and is falsy (null, false, 0, the empty string), or it is an
  array of strings.
\<close>

datatype jtags = Absent | Falsy | Array "string list"

text \<open>
  The body of a save-draft request. An absent title or json_file_url is validated as
  the empty string. \<open>req_sessionId = None\<close> is an absent (or falsy) sessionId.
\<close>

record save_body =
  req_title :: string
  req_tags :: jtags
  req_json_file_url :: string
  req_sessionId :: "nat option"

text \<open>
  \<^verbatim>\<open>sessionValidation\<close>: the chain trims title and json_file_url in the body
  (sanitizers write back), and collects the messages of the checks that fail. The URL
  check \<^verbatim>\<open>isURL\<close> belongs to a library and is a parameter. \<^verbatim>\<open>optional()\<close>
  skips the tags check only for an absent field.
\<close>

definition sessionValidation :: "(string \<Rightarrow> bool) \<Rightarrow> save_body \<Rightarrow> string list \<times> save_body" where
  "sessionValidation isURL b =
     (let t = trim (req_title b);
          u = trim (req_json_file_url b);
          e1 = (if 1 \<le> length t \<and> length t \<le> 200 then []
                else [''Title is required and must be between 1-200 characters'']);
          e2 = (if u \<noteq> [] then [] else [''JSON file URL is required'']);
          e3 = (if isURL u then [] else [''JSON file URL must be a valid URL'']);
          e4 = (case req_tags b of
                  Absent \<Rightarrow> []
                | Falsy \<Rightarrow> [''Tags must be an array'']
                | Array xs \<Rightarrow> [])
      in (e1 @ e2 @ e3 @ e4, b\<lparr>req_title := t, req_json_file_url := u\<rparr>))"

section \<open>The controller (backend/controllers/sessionController.js)\<close>

text \<open>
  The responses: 400 with the validation errors, 400 for a missing session id, 404,
  500 from the catch-all handler, and 200 with the session.
\<close>

datatype error = ValidationFailed | SessionIdRequired | SessionNotFound | ServerError

type_synonym response = "error + session"

text \<open>
  The end both handlers share: \<^verbatim>\<open>if (!session)\<close> answers 404, otherwise the
  session is returned.
\<close>

definition respond :: "session option \<times> store \<Rightarrow> response \<times> store" where
  "respond found =
     (case fst found of
        None \<Rightarrow> (Inl SessionNotFound, snd found)
      | Some s \<Rightarrow> (Inr s, snd found))"

text \<open>\<^verbatim>\<open>tags || []\<close>\<close>

definition tags_or_empty :: "jtags \<Rightarrow> string list" where
  "tags_or_empty t = (case t of Absent \<Rightarrow> [] | Falsy \<Rightarrow> [] | Array xs \<Rightarrow> xs)"

text \<open>
  \<^verbatim>\<open>saveDraft\<close>. The request arrives with the result of the validation chain.
  \<open>uid\<close> is \<^verbatim>\<open>req.user._id\<close>, \<open>now\<close> is \<^verbatim>\<open>Date.now()\<close>, \<open>oid\<close> is
  the id a new document is constructed with. A validator of the schema that fails, and
  an insert under an id that is already taken, throw, and the catch-all answers 500.
\<close>

definition saveDraft ::
  "nat \<Rightarrow> string list \<times> save_body \<Rightarrow> nat \<Rightarrow> nat \<Rightarrow> store \<Rightarrow> response \<times> store" where
  "saveDraft uid req now oid db =
     (let errors = fst req; b = snd req in
      if errors \<noteq> [] then (Inl ValidationFailed, db)
      else
        let t = trim (req_title b);
            tg = map trim (tags_or_empty (req_tags b));
            u = trim (req_json_file_url b)
        in case req_sessionId b of
             Some k \<Rightarrow>
               if validators_ok t tg u then
                 respond (findOneAndUpdate k uid
                   (\<lambda>r. r\<lparr>title := t, tags := tg, json_file_url := u, updated_at := now\<rparr>) db)
               else (Inl ServerError, db)
           | None \<Rightarrow>
               if validators_ok t tg u \<and> db oid = None then
                 (let s = \<lparr>sid = oid, user_id = uid, title = t, tags = tg, json_file_url = u,
                            status = Draft, created_at = now, updated_at = now\<rparr>
                  in (Inr s, db(oid \<mapsto> s)))
               else (Inl ServerError, db))"

text \<open>\<^verbatim>\<open>publishSession\<close>\<close>

definition publishSession :: "nat \<Rightarrow> nat option \<Rightarrow> nat \<Rightarrow> store \<Rightarrow> response \<times> store" where
  "publishSession uid sessionId now db =
     (case sessionId of
        None \<Rightarrow> (Inl SessionIdRequired, db)
      | Some k \<Rightarrow>
          respond (findOneAndUpdate k uid (\<lambda>r. r\<lparr>status := Published, updated_at := now\<rparr>) db))"

text \<open>
  The route \<^verbatim>\<open>POST /my-sessions/save-draft\<close>: the validation chain, then the
  controller.
\<close>

definition post_save_draft ::
  "(string \<Rightarrow> bool) \<Rightarrow> nat \<Rightarrow> save_body \<Rightarrow> nat \<Rightarrow> nat \<Rightarrow> store \<Rightarrow> response \<times> store" where
  "post_save_draft isURL uid b now oid db = saveDraft uid (sessionValidation isURL b) now oid db"

section \<open>Sequences of operations, and the vocabulary of the statements\<close>

text \<open>
  The two mutating operations of the API, each with its caller, its input and the
  values the environment supplies (the time, a new document's id).
\<close>

datatype op = SaveDraft nat save_body nat nat | Publish nat "nat option" nat

fun apply_op :: "(string \<Rightarrow> bool) \<Rightarrow> op \<Rightarrow> store \<Rightarrow> store" where
  "apply_op isURL (SaveDraft uid b now oid) db = snd (post_save_draft isURL uid b now oid db)"
| "apply_op isURL (Publish uid sessionId now) db = snd (publishSession uid sessionId now db)"

fun apply_ops :: "(string \<Rightarrow> bool) \<Rightarrow> op list \<Rightarrow> store \<Rightarrow> store" where
  "apply_ops isURL [] db = db"
| "apply_ops isURL (x # xs) db = apply_ops isURL xs (apply_op isURL x db)"

definition is_published :: "store \<Rightarrow> nat \<Rightarrow> bool" where
  "is_published db k = (case db k of None \<Rightarrow> False | Some r \<Rightarrow> status r = Published)"

text \<open>
  \<open>required_ok\<close>: title and json_file_url pass the validation chain.
  \<open>accepted\<close>: the whole request passes the chain and the schema's validators, so
  that the controller reaches the store.
\<close>

definition required_ok :: "(string \<Rightarrow> bool) \<Rightarrow> save_body \<Rightarrow> bool" where
  "required_ok isURL b \<longleftrightarrow>
     1 \<le> length (trim (req_title b)) \<and> length (trim (req_title b)) \<le> 200 \<and>
     trim (req_json_file_url b) \<noteq> [] \<and> isURL (trim (req_json_file_url b))"

definition accepted :: "(string \<Rightarrow> bool) \<Rightarrow> save_body \<Rightarrow> bool" where
  "accepted isURL b \<longleftrightarrow>
     required_ok isURL b \<and> req_tags b \<noteq> Falsy \<and>
     list_all (\<lambda>x. length (trim x) \<le> 50) (tags_or_empty (req_tags b))"

text \<open>The update that \<^verbatim>\<open>saveDraft\<close> hands to \<^verbatim>\<open>findOneAndUpdate\<close>.\<close>

definition written :: "save_body \<Rightarrow> nat \<Rightarrow> session \<Rightarrow> session" where
  "written b now r =
     r\<lparr>title := trim (req_title b), tags := map trim (tags_or_empty (req_tags b)),
       json_file_url := trim (req_json_file_url b), updated_at := now\<rparr>"

definition persisted :: "session \<Rightarrow> string \<times> string list \<times> string \<times> nat" where
  "persisted s = (title s, tags s, json_file_url s, user_id s)"

text \<open>
  Concrete data for the examples. \<open>url_standin\<close> stands in for the library's URL
  check where an example needs a concrete one: it asks for the protocol http or https
  and for a dot in the host name. On the URLs of the examples it answers as the library
  does: it accepts \<^verbatim>\<open>https://example.com/y.json\<close> and refuses a host without a
  top-level domain.
\<close>

definition url_standin :: "string \<Rightarrow> bool" where
  "url_standin u \<longleftrightarrow>
     (take 8 u = ''https://'' \<and> CHR ''.'' \<in> set (takeWhile (\<lambda>c. c \<noteq> CHR ''/'') (drop 8 u))) \<or>
     (take 7 u = ''http://'' \<and> CHR ''.'' \<in> set (takeWhile (\<lambda>c. c \<noteq> CHR ''/'') (drop 7 u)))"

text \<open>A stored session and a request.\<close>

abbreviation flow :: "status \<Rightarrow> session" where
  "flow st \<equiv> \<lparr>sid = 0, user_id = 1, title = ''Morning Flow'', tags = [''yoga''],
     json_file_url = ''https://example.com/y.json'', status = st, created_at = 5, updated_at = 5\<rparr>"

abbreviation evening :: "jtags \<Rightarrow> nat option \<Rightarrow> save_body" where
  "evening tg k \<equiv> \<lparr>req_title = ''Evening Flow '', req_tags = tg,
     req_json_file_url = ''https://example.com/z.json'', req_sessionId = k\<rparr>"

section \<open>The editor (frontend/src/pages/SessionEditor.tsx)\<close>

text \<open>
  The form as the user typed it; \<open>f_tags\<close> is the comma-separated text of the tags
  input.
\<close>

record form =
  f_title :: string
  f_tags :: string
  f_json_file_url :: string

text \<open>The \<^verbatim>\<open>name\<close> of the input a change event comes from.\<close>

datatype field = Title | Tags | JsonFileUrl

text \<open>
  A pending \<^verbatim>\<open>setTimeout\<close> of the auto-save effect: the time it is due, and what
  its callback \<^verbatim>\<open>() => saveDraft(formData)\<close> closes over, the form of that render
  and, through \<^verbatim>\<open>saveDraft\<close>, the session id of that render.
\<close>

record timeout =
  due :: nat
  t_data :: form
  t_sessionId :: "nat option"

text \<open>
  The component's state. \<open>timer\<close> is the timeout the last run of the auto-save effect
  left pending, if any. \<open>mounted\<close> is false once the component has navigated away.
\<close>

record editor =
  formData :: form
  currentSessionId :: "nat option"
  saving :: bool
  publishing :: bool
  lastSaved :: "nat option"
  hasUnsavedChanges :: bool
  initialLoad :: bool
  timer :: "timeout option"
  mounted :: bool

text \<open>The requests the editor sends.\<close>

datatype request = PostSaveDraft save_body | PostPublish "nat option"

text \<open>
  The editor together with the backend it talks to: the stored sessions, the time, and
  the requests sent so far, oldest first. A request and its answer are one step: no
  other event falls between them.
\<close>

record world =
  ed :: editor
  server :: store
  clock :: nat
  sent :: "request list"

text \<open>
  What the surroundings supply: the library's URL check, the authenticated user, and
  the id a document created at a given time receives.
\<close>

record env =
  url_check :: "string \<Rightarrow> bool"
  me :: nat
  mint :: "nat \<Rightarrow> nat"

text \<open>\<^verbatim>\<open>str.split(',')\<close>\<close>

fun split_comma :: "string \<Rightarrow> string list" where
  "split_comma [] = [[]]"
| "split_comma (c # cs) =
     (if c = CHR '','' then [] # split_comma cs
      else (case split_comma cs of [] \<Rightarrow> [[c]] | p # ps \<Rightarrow> (c # p) # ps))"

text \<open>The body \<^verbatim>\<open>saveDraft\<close> posts, for a form and the session id it closes over.\<close>

definition request_body :: "form \<Rightarrow> nat option \<Rightarrow> save_body" where
  "request_body d cs =
     \<lparr>req_title = trim (f_title d),
      req_tags = Array (filter (\<lambda>tag. tag \<noteq> []) (map trim (split_comma (f_tags d)))),
      req_json_file_url = trim (f_json_file_url d),
      req_sessionId = cs\<rparr>"

text \<open>
  The editor's \<^verbatim>\<open>saveDraft(data)\<close>, of the render in which the session id was
  \<open>cs\<close>. It returns at once when title or json_file_url is empty. An answer other
  than 200 makes the request throw; the catch block only logs.
\<close>

definition saveDraft_editor :: "env \<Rightarrow> form \<Rightarrow> nat option \<Rightarrow> world \<Rightarrow> world" where
  "saveDraft_editor ev d cs w =
     (if trim (f_title d) = [] \<or> trim (f_json_file_url d) = [] then w
      else
        let body = request_body d cs;
            res = post_save_draft (url_check ev) (me ev) body (clock w) (mint ev (clock w)) (server w);
            w' = w\<lparr>server := snd res, sent := sent w @ [PostSaveDraft body]\<rparr>
        in case fst res of
             Inl err \<Rightarrow> w'\<lparr>ed := (ed w)\<lparr>saving := False\<rparr>\<rparr>
           | Inr s \<Rightarrow>
               w'\<lparr>ed := (ed w)
                  \<lparr>currentSessionId :=
                     (case cs of None \<Rightarrow> Some (sid s) | Some c \<Rightarrow> currentSessionId (ed w)),
                   lastSaved := Some (clock w),
                   hasUnsavedChanges := False,
                   saving := False\<rparr>\<rparr>)"

text \<open>
  The debounced auto-save effect, run at time \<open>at\<close>: first the cleanup of its
  previous run (\<^verbatim>\<open>clearTimeout\<close>), then its body.
\<close>

definition autosave_effect :: "nat \<Rightarrow> editor \<Rightarrow> editor" where
  "autosave_effect at e =
     (if initialLoad e \<or>
         (trim (f_title (formData e)) = [] \<and> trim (f_json_file_url (formData e)) = [])
      then e\<lparr>timer := None\<rparr>
      else e\<lparr>hasUnsavedChanges := True,
             timer := Some \<lparr>due = at + 5000, t_data = formData e,
                            t_sessionId = currentSessionId e\<rparr>\<rparr>)"

text \<open>
  The render that follows the state updates of a handler: the effect runs again when
  one of its dependencies changed. Of \<^verbatim>\<open>[formData, saveDraft, initialLoad]\<close>
  a handler other than \<^verbatim>\<open>handleChange\<close> can change \<^verbatim>\<open>saveDraft\<close>, which
  is a new function exactly when \<^verbatim>\<open>currentSessionId\<close> changed, and
  \<^verbatim>\<open>initialLoad\<close>.
\<close>

definition settle :: "world \<Rightarrow> world \<Rightarrow> world" where
  "settle w w' =
     (if currentSessionId (ed w') = currentSessionId (ed w) \<and> initialLoad (ed w') = initialLoad (ed w)
      then w'
      else w'\<lparr>ed := autosave_effect (clock w') (ed w')\<rparr>)"

text \<open>
  \<^verbatim>\<open>handleChange\<close>: the form is a new object, so the effect runs again.
\<close>

definition handleChange :: "field \<Rightarrow> string \<Rightarrow> world \<Rightarrow> world" where
  "handleChange name v w =
     (let d = (case name of
                 Title \<Rightarrow> (formData (ed w))\<lparr>f_title := v\<rparr>
               | Tags \<Rightarrow> (formData (ed w))\<lparr>f_tags := v\<rparr>
               | JsonFileUrl \<Rightarrow> (formData (ed w))\<lparr>f_json_file_url := v\<rparr>)
      in w\<lparr>ed := autosave_effect (clock w) ((ed w)\<lparr>formData := d\<rparr>)\<rparr>)"

text \<open>\<^verbatim>\<open>handleSaveDraft\<close>\<close>

definition handleSaveDraft :: "env \<Rightarrow> world \<Rightarrow> world" where
  "handleSaveDraft ev w =
     (let d = formData (ed w) in
      if trim (f_title d) = [] \<or> trim (f_json_file_url d) = [] then w
      else settle w (saveDraft_editor ev d (currentSessionId (ed w)) w))"

text \<open>
  \<^verbatim>\<open>handlePublish\<close>. The handler belongs to the render in which it was created:
  its \<^verbatim>\<open>formData\<close>, \<^verbatim>\<open>hasUnsavedChanges\<close>, \<^verbatim>\<open>saveDraft\<close> and
  \<^verbatim>\<open>currentSessionId\<close> are the values of the state \<open>w\<close> it starts in, also after
  the awaited save. A publish request that is not answered with 200 throws and is
  caught; after one that succeeds the component navigates away.
\<close>

definition handlePublish :: "env \<Rightarrow> world \<Rightarrow> world" where
  "handlePublish ev w =
     (let d = formData (ed w); cs = currentSessionId (ed w) in
      if trim (f_title d) = [] \<or> trim (f_json_file_url d) = [] then w
      else
        let w1 = (if hasUnsavedChanges (ed w) then settle w (saveDraft_editor ev d cs w) else w);
            res = publishSession (me ev) cs (clock w1) (server w1);
            w2 = w1\<lparr>server := snd res, sent := sent w1 @ [PostPublish cs]\<rparr>
        in case fst res of
             Inl err \<Rightarrow> w2\<lparr>ed := (ed w1)\<lparr>publishing := False\<rparr>\<rparr>
           | Inr s \<Rightarrow> w2\<lparr>ed := (ed w1)\<lparr>publishing := False, timer := None, mounted := False\<rparr>\<rparr>)"

text \<open>
  A timeout that is due: the time is its due time, its callback runs, and the
  component renders.
\<close>

definition fire :: "env \<Rightarrow> timeout \<Rightarrow> world \<Rightarrow> world" where
  "fire ev t w =
     (let w0 = w\<lparr>clock := due t, ed := (ed w)\<lparr>timer := None\<rparr>\<rparr>
      in settle w0 (saveDraft_editor ev (t_data t) (t_sessionId t) w0))"

section \<open>Time and events\<close>

lemma saveDraft_editor_frame:
  "clock (saveDraft_editor ev d cs w) = clock w"
  "timer (ed (saveDraft_editor ev d cs w)) = timer (ed w)"
  by (simp_all add: saveDraft_editor_def Let_def split: sum.splits)

lemma settle_timer:
  "timer (ed (settle w w')) = timer (ed w')
   \<or> timer (ed (settle w w')) = None
   \<or> (\<exists>t. timer (ed (settle w w')) = Some t \<and> due t = clock w' + 5000)"
  by (simp add: settle_def autosave_effect_def)

lemma fire_timer:
  "timer (ed (fire ev t w)) = None
   \<or> (\<exists>t'. timer (ed (fire ev t w)) = Some t' \<and> due t' = due t + 5000)"
  using settle_timer [of "w\<lparr>clock := due t, ed := (ed w)\<lparr>timer := None\<rparr>\<rparr>"
      "saveDraft_editor ev (t_data t) (t_sessionId t)
         (w\<lparr>clock := due t, ed := (ed w)\<lparr>timer := None\<rparr>\<rparr>)"]
  by (simp add: fire_def Let_def saveDraft_editor_frame)

text \<open>
  Time passes until \<open>until\<close> with no user input: a pending timeout that falls due
  fires, and so does one that its callback's render arms, if that falls due as well. A
  timeout armed by a firing is due 5000 later than the one that fired, so this ends.
\<close>

function elapse :: "env \<Rightarrow> nat \<Rightarrow> world \<Rightarrow> world" where
  "elapse ev until w =
     (case timer (ed w) of
        None \<Rightarrow> w\<lparr>clock := until\<rparr>
      | Some t \<Rightarrow> if due t \<le> until then elapse ev until (fire ev t w) else w\<lparr>clock := until\<rparr>)"
  by pat_completeness auto
termination
proof (relation "measure (\<lambda>(ev, until, w).
    case timer (ed w) of None \<Rightarrow> 0 | Some t \<Rightarrow> Suc until - due t)")
  show "wf (measure (\<lambda>(ev, until, w).
    case timer (ed w) of None \<Rightarrow> 0 | Some t \<Rightarrow> Suc until - due t))"
    by simp
next
  fix ev :: env and until :: nat and w :: world and t :: timeout
  assume a: "timer (ed w) = Some t" and b: "due t \<le> until"
  from fire_timer [of ev t w]
  show "((ev, until, fire ev t w), (ev, until, w)) \<in> measure (\<lambda>(ev, until, w).
    case timer (ed w) of None \<Rightarrow> 0 | Some t \<Rightarrow> Suc until - due t)"
    using a b by auto
qed

text \<open>
  What happens to an open editor: the user changes an input, time passes, the user
  clicks one of the two buttons. A component that has navigated away takes no input.
\<close>

datatype event = Change field string | Wait nat | ClickSaveDraft | ClickPublish

fun step :: "env \<Rightarrow> event \<Rightarrow> world \<Rightarrow> world" where
  "step ev (Change name v) w = (if mounted (ed w) then handleChange name v w else w)"
| "step ev (Wait n) w = elapse ev (clock w + n) w"
| "step ev ClickSaveDraft w = (if mounted (ed w) then handleSaveDraft ev w else w)"
| "step ev ClickPublish w = (if mounted (ed w) then handlePublish ev w else w)"

fun run :: "env \<Rightarrow> event list \<Rightarrow> world \<Rightarrow> world" where
  "run ev [] w = w"
| "run ev (x # xs) w = run ev xs (step ev x w)"

text \<open>
  Further edits, each a pause and a change: \<open>(n, name, v)\<close> is the change of input
  \<open>name\<close> to \<open>v\<close>, \<open>n\<close> after the event before it.
\<close>

fun burst :: "(nat \<times> field \<times> string) list \<Rightarrow> event list" where
  "burst [] = []"
| "burst ((n, name, v) # es) = Wait n # Change name v # burst es"

text \<open>
  A burst is quiet when each of its edits comes less than 5000 after the event before.
\<close>

definition quiet :: "(nat \<times> field \<times> string) list \<Rightarrow> bool" where
  "quiet es = list_all (\<lambda>e. fst e < 5000) es"

text \<open>The state right after an edit of a burst that began in \<open>w0\<close>.\<close>

definition edited :: "world \<Rightarrow> world \<Rightarrow> bool" where
  "edited w0 w \<longleftrightarrow>
     mounted (ed w) \<and> initialLoad (ed w) = False \<and> sent w = sent w0 \<and> server w = server w0 \<and>
     currentSessionId (ed w) = currentSessionId (ed w0) \<and>
     timer (ed w) =
       (if trim (f_title (formData (ed w))) = [] \<and> trim (f_json_file_url (formData (ed w))) = []
        then None
        else Some \<lparr>due = clock w + 5000, t_data = formData (ed w),
                   t_sessionId = currentSessionId (ed w0)\<rparr>)"

text \<open>Concrete data for the examples: surroundings, a new editor, an empty backend.\<close>

abbreviation env0 :: env where
  "env0 \<equiv> \<lparr>url_check = url_standin, me = 1, mint = (\<lambda>n. n)\<rparr>"

abbreviation blank :: editor where
  "blank \<equiv> \<lparr>formData = \<lparr>f_title = [], f_tags = [], f_json_file_url = []\<rparr>,
     currentSessionId = None, saving = False, publishing = False, lastSaved = None,
     hasUnsavedChanges = False, initialLoad = False, timer = None, mounted = True\<rparr>"

abbreviation world0 :: world where
  "world0 \<equiv> \<lparr>ed = blank, server = Map.empty, clock = 0, sent = []\<rparr>"

text \<open>
  An editor with an edit that is not saved yet: the title was changed to Evening Flow,
  the tags input holds \<open>tg\<close>, and the session id the editor knows is \<open>cs\<close>.
\<close>

abbreviation editing :: "string \<Rightarrow> nat option \<Rightarrow> editor" where
  "editing tg cs \<equiv> \<lparr>formData = \<lparr>f_title = ''Evening Flow'', f_tags = tg,
       f_json_file_url = ''https://example.com/z.json''\<rparr>,
     currentSessionId = cs, saving = False, publishing = False, lastSaved = Some 5,
     hasUnsavedChanges = True, initialLoad = False, timer = None, mounted = True\<rparr>"

section \<open>Trimming twice\<close>

lemma dropWhile_rev_suffix:
  assumes "xs = [] \<or> \<not> P (hd xs)"
  shows "dropWhile P (rev (dropWhile P (rev xs))) = rev (dropWhile P (rev xs))"
proof (cases "dropWhile P (rev xs) = []")
  case True
  show ?thesis by (simp only: True rev.simps dropWhile.simps)
next
  case False
  then have ne: "xs \<noteq> []" by auto
  have "rev xs = takeWhile P (rev xs) @ dropWhile P (rev xs)" by simp
  then have "last (rev xs) = last (dropWhile P (rev xs))"
    using False by (metis last_appendR)
  then have "hd xs = last (dropWhile P (rev xs))"
    using ne by (simp add: last_rev)
  then have "\<not> P (hd (rev (dropWhile P (rev xs))))"
    using assms ne False by (simp add: hd_rev)
  then show ?thesis
    using False by (cases "rev (dropWhile P (rev xs))") auto
qed

lemma trim_trim: "trim (trim s) = trim s"
proof -
  let ?t = "dropWhile is_space s"
  have h: "?t = [] \<or> \<not> is_space (hd ?t)"
    using hd_dropWhile by blast
  have "dropWhile is_space (trim s) = trim s"
    unfolding trim_def using h by (rule dropWhile_rev_suffix)
  then show ?thesis
    by (simp add: trim_def)
qed

section \<open>Validation gating\<close>

lemma trim_Nil_title_errors:
  "trim (req_title b) = [] \<Longrightarrow> fst (sessionValidation isURL b) \<noteq> []"
  by (simp add: sessionValidation_def Let_def)

lemma trim_Nil_url_errors:
  "trim (req_json_file_url b) = [] \<Longrightarrow> fst (sessionValidation isURL b) \<noteq> []"
  by (simp add: sessionValidation_def Let_def)

lemma saveDraft_errors:
  "fst req \<noteq> [] \<Longrightarrow> saveDraft uid req now oid db = (Inl ValidationFailed, db)"
  by (simp add: saveDraft_def Let_def)

text \<open>
  C8. A save-draft request whose title or json_file_url is empty or only white space
  (empty after trimming) is answered with the validation error, and the store after
  the request is the store before it: nothing is created and nothing is modified.
\<close>

theorem validation_gating:
  assumes "trim (req_title b) = [] \<or> trim (req_json_file_url b) = []"
  shows "post_save_draft isURL uid b now oid db = (Inl ValidationFailed, db)"
proof -
  from assms have "fst (sessionValidation isURL b) \<noteq> []"
    using trim_Nil_title_errors trim_Nil_url_errors by blast
  then show ?thesis
    unfolding post_save_draft_def by (rule saveDraft_errors)
qed

theorem validation_gating_witness:
  "(trim (req_title \<lparr>req_title = ''  '', req_tags = Absent,
        req_json_file_url = ''https://example.com/y.json'', req_sessionId = None\<rparr>) = []
     \<or> trim (req_json_file_url \<lparr>req_title = ''  '', req_tags = Absent,
        req_json_file_url = ''https://example.com/y.json'', req_sessionId = None\<rparr>) = [])
   \<and> post_save_draft url_standin 1 \<lparr>req_title = ''  '', req_tags = Absent,
        req_json_file_url = ''https://example.com/y.json'', req_sessionId = None\<rparr> 10 0 Map.empty
     = (Inl ValidationFailed, Map.empty)"
proof -
  have h: "trim (req_title \<lparr>req_title = ''  '', req_tags = Absent,
        req_json_file_url = ''https://example.com/y.json'', req_sessionId = None\<rparr>) = []
     \<or> trim (req_json_file_url \<lparr>req_title = ''  '', req_tags = Absent,
        req_json_file_url = ''https://example.com/y.json'', req_sessionId = None\<rparr>) = []"
    by (simp add: trim_def is_space_def)
  show ?thesis
    using h validation_gating [OF h] by blast
qed

section \<open>The status never goes back\<close>

lemma findOneAndUpdate_status:
  assumes "is_published db k" and "\<And>r. status r = Published \<Longrightarrow> status (upd r) = Published"
  shows "is_published (snd (findOneAndUpdate k' uid upd db)) k"
  using assms
  by (auto simp: findOneAndUpdate_def is_published_def split: option.splits)

lemma snd_respond: "snd (respond found) = snd found"
  by (simp add: respond_def split: option.splits)

lemma saveDraft_store_cases:
  "snd (saveDraft uid req now oid db) = db
   \<or> (\<exists>k'. snd (saveDraft uid req now oid db) =
           snd (findOneAndUpdate k' uid (written (snd req) now) db))
   \<or> (db oid = None \<and> (\<exists>s. snd (saveDraft uid req now oid db) = db(oid \<mapsto> s)))"
proof (cases "req_sessionId (snd req)")
  case None
  then show ?thesis
    by (auto simp: saveDraft_def Let_def)
next
  case (Some k')
  have "written (snd req) now = (\<lambda>r. r\<lparr>title := trim (req_title (snd req)),
      tags := map trim (tags_or_empty (req_tags (snd req))),
      json_file_url := trim (req_json_file_url (snd req)), updated_at := now\<rparr>)"
    by (simp add: written_def fun_eq_iff)
  then show ?thesis
    using Some by (auto simp: saveDraft_def Let_def snd_respond)
qed

lemma saveDraft_status:
  assumes "is_published db k"
  shows "is_published (snd (saveDraft uid req now oid db)) k"
proof -
  have u: "\<And>k'. is_published (snd (findOneAndUpdate k' uid (written (snd req) now) db)) k"
    using assms by (rule findOneAndUpdate_status) (simp add: written_def)
  have fresh: "db oid = None \<Longrightarrow> oid \<noteq> k"
    using assms by (auto simp: is_published_def)
  from saveDraft_store_cases [of uid req now oid db] show ?thesis
  proof (elim disjE conjE exE)
    assume "snd (saveDraft uid req now oid db) = db"
    with assms show ?thesis by simp
  next
    fix k' assume "snd (saveDraft uid req now oid db) =
           snd (findOneAndUpdate k' uid (written (snd req) now) db)"
    with u show ?thesis by simp
  next
    fix s assume "db oid = None" and "snd (saveDraft uid req now oid db) = db(oid \<mapsto> s)"
    with assms fresh show ?thesis by (simp add: is_published_def)
  qed
qed

lemma publishSession_status:
  assumes "is_published db k"
  shows "is_published (snd (publishSession uid sessionId now db)) k"
proof (cases sessionId)
  case None
  then show ?thesis using assms by (simp add: publishSession_def)
next
  case (Some k')
  have "is_published (snd (findOneAndUpdate k' uid (\<lambda>r. r\<lparr>status := Published, updated_at := now\<rparr>) db)) k"
    using assms by (rule findOneAndUpdate_status) simp
  then show ?thesis
    using Some by (simp add: publishSession_def snd_respond)
qed

lemma apply_op_status: "is_published db k \<Longrightarrow> is_published (apply_op isURL x db) k"
  by (cases x) (simp_all add: post_save_draft_def saveDraft_status publishSession_status)

lemma apply_ops_status: "is_published db k \<Longrightarrow> is_published (apply_ops isURL ops db) k"
  by (induction ops arbitrary: db) (simp_all add: apply_op_status)

text \<open>
  C2. A record that is published stays published under every sequence of save-draft
  and publish requests, from any callers, with any inputs: after the sequence the
  record is still stored under its id and its status is still published.
\<close>

theorem status_monotonic:
  assumes "db k = Some r" and "status r = Published"
  shows "\<exists>r'. apply_ops isURL ops db k = Some r' \<and> status r' = Published"
proof -
  from assms have "is_published db k" by (simp add: is_published_def)
  then have "is_published (apply_ops isURL ops db) k" by (rule apply_ops_status)
  then show ?thesis by (auto simp: is_published_def split: option.splits)
qed

theorem status_monotonic_witness:
  "[0 \<mapsto> flow Published] 0 = Some (flow Published) \<and> status (flow Published) = Published
   \<and> (\<exists>r'. apply_ops url_standin
          [SaveDraft 1 (evening (Array [''calm'']) (Some 0)) 10 7,
           SaveDraft 1 (evening Absent None) 11 0,
           Publish 1 (Some 0) 12,
           SaveDraft 2 (evening Absent None) 13 8]
          [0 \<mapsto> flow Published] 0 = Some r' \<and> status r' = Published)"
  using status_monotonic [of "[0 \<mapsto> flow Published]" 0 "flow Published" url_standin
      "[SaveDraft 1 (evening (Array [''calm'']) (Some 0)) 10 7,
           SaveDraft 1 (evening Absent None) 11 0,
           Publish 1 (Some 0) 12,
           SaveDraft 2 (evening Absent None) 13 8]"]
  by simp

section \<open>Requests that reach the store\<close>

lemma accepted_chain: "accepted isURL b \<Longrightarrow> fst (sessionValidation isURL b) = []"
  by (cases "req_tags b") (auto simp: accepted_def required_ok_def url_standin_def sessionValidation_def Let_def)

lemma accepted_validators:
  assumes "accepted isURL b"
  shows "validators_ok (trim (req_title b)) (map trim (tags_or_empty (req_tags b)))
           (trim (req_json_file_url b))"
proof -
  from assms have "trim (req_title b) \<noteq> []" by (auto simp: accepted_def required_ok_def url_standin_def)
  with assms show ?thesis
    by (simp add: accepted_def required_ok_def url_standin_def validators_ok_def list_all_iff)
qed

lemma snd_sessionValidation:
  "snd (sessionValidation isURL b) =
     b\<lparr>req_title := trim (req_title b), req_json_file_url := trim (req_json_file_url b)\<rparr>"
  by (simp add: sessionValidation_def Let_def)

lemma post_save_draft_update:
  assumes "accepted isURL b" and "req_sessionId b = Some k"
  shows "post_save_draft isURL uid b now oid db =
     (case db k of
        None \<Rightarrow> (Inl SessionNotFound, db)
      | Some r \<Rightarrow> if user_id r = uid then (Inr (written b now r), db(k \<mapsto> written b now r))
                  else (Inl SessionNotFound, db))"
  using accepted_chain [OF assms(1)] accepted_validators [OF assms(1)] assms(2)
  by (simp add: post_save_draft_def saveDraft_def snd_sessionValidation trim_trim Let_def
      findOneAndUpdate_def written_def respond_def split: option.splits)

section \<open>Ownership isolation\<close>

lemma findOneAndUpdate_not_owner:
  "db k = Some r \<Longrightarrow> user_id r \<noteq> uid \<Longrightarrow> findOneAndUpdate k uid upd db = (None, db)"
  by (simp add: findOneAndUpdate_def)

lemma findOneAndUpdate_unknown:
  "db k = None \<Longrightarrow> findOneAndUpdate k uid upd db = (None, db)"
  by (simp add: findOneAndUpdate_def)

lemma saveDraft_not_found:
  assumes "req_sessionId (snd req) = Some k" and "findOneAndUpdate k uid (written (snd req) now) db = (None, db)"
  shows "snd (saveDraft uid req now oid db) = db"
    and "fst (saveDraft uid req now oid db) =
      (if fst req \<noteq> [] then Inl ValidationFailed
       else if validators_ok (trim (req_title (snd req)))
                (map trim (tags_or_empty (req_tags (snd req)))) (trim (req_json_file_url (snd req)))
       then Inl SessionNotFound else Inl ServerError)"
proof -
  have w: "(\<lambda>r. r\<lparr>title := trim (req_title (snd req)),
      tags := map trim (tags_or_empty (req_tags (snd req))),
      json_file_url := trim (req_json_file_url (snd req)), updated_at := now\<rparr>) = written (snd req) now"
    by (simp add: written_def fun_eq_iff)
  show "snd (saveDraft uid req now oid db) = db"
    using assms by (simp add: saveDraft_def Let_def w respond_def)
  show "fst (saveDraft uid req now oid db) =
      (if fst req \<noteq> [] then Inl ValidationFailed
       else if validators_ok (trim (req_title (snd req)))
                (map trim (tags_or_empty (req_tags (snd req)))) (trim (req_json_file_url (snd req)))
       then Inl SessionNotFound else Inl ServerError)"
    using assms by (simp add: saveDraft_def Let_def w respond_def)
qed

text \<open>
  C3, as stated, fails for save-draft: validation comes before the lookup. A caller who
  is not the owner sends a request with the record's id and a blank title; the answer
  is the validation error, not not-found. The record is untouched.
\<close>

theorem foreign_save_draft_counterexample:
  "user_id (flow Draft) \<noteq> 2
   \<and> post_save_draft url_standin 2
        \<lparr>req_title = ''  '', req_tags = Absent,
         req_json_file_url = ''https://example.com/z.json'', req_sessionId = Some 0\<rparr>
        10 7 [0 \<mapsto> flow Draft]
      = (Inl ValidationFailed, [0 \<mapsto> flow Draft])"
proof -
  have "trim (req_title \<lparr>req_title = ''  '', req_tags = Absent,
         req_json_file_url = ''https://example.com/z.json'', req_sessionId = Some 0\<rparr>) = []"
    by (simp add: trim_def is_space_def)
  then have "fst (sessionValidation url_standin \<lparr>req_title = ''  '', req_tags = Absent,
         req_json_file_url = ''https://example.com/z.json'', req_sessionId = Some 0\<rparr>) \<noteq> []"
    by (rule trim_Nil_title_errors)
  then have "post_save_draft url_standin 2
        \<lparr>req_title = ''  '', req_tags = Absent,
         req_json_file_url = ''https://example.com/z.json'', req_sessionId = Some 0\<rparr>
        10 7 [0 \<mapsto> flow Draft]
      = (Inl ValidationFailed, [0 \<mapsto> flow Draft])"
    unfolding post_save_draft_def by (rule saveDraft_errors)
  then show ?thesis by simp
qed

text \<open>
  C3, amended. For a stored record and a caller who is not its owner: publish with the
  record's id answers not-found and leaves the store as it was, as it answers for an id
  that is not stored. A save-draft request with the record's id leaves the store as it
  was, whatever the request holds, and its answer is the answer the same request gets
  when the id is not stored at all; for a request that passes validation that answer
  is not-found.
\<close>

theorem ownership_isolation:
  assumes "db k = Some r" and "user_id r \<noteq> uid" and "req_sessionId b = Some k"
  shows "publishSession uid (Some k) now db = (Inl SessionNotFound, db)
       \<and> fst (publishSession uid (Some k) now (db(k := None))) = Inl SessionNotFound
       \<and> snd (post_save_draft isURL uid b now oid db) = db
       \<and> fst (post_save_draft isURL uid b now oid db)
           = fst (post_save_draft isURL uid b now oid (db(k := None)))
       \<and> (accepted isURL b \<longrightarrow>
            post_save_draft isURL uid b now oid db = (Inl SessionNotFound, db))"
proof -
  have p1: "publishSession uid (Some k) now db = (Inl SessionNotFound, db)"
    using assms(1,2) by (simp add: publishSession_def findOneAndUpdate_not_owner respond_def)
  have p2: "fst (publishSession uid (Some k) now (db(k := None))) = Inl SessionNotFound"
    by (simp add: publishSession_def findOneAndUpdate_unknown respond_def)
  let ?req = "sessionValidation isURL b"
  have sid: "req_sessionId (snd ?req) = Some k"
    using assms(3) by (simp add: snd_sessionValidation)
  have f1: "findOneAndUpdate k uid (written (snd ?req) now) db = (None, db)"
    using assms(1,2) by (rule findOneAndUpdate_not_owner)
  have f2: "findOneAndUpdate k uid (written (snd ?req) now) (db(k := None)) = (None, db(k := None))"
    by (simp add: findOneAndUpdate_unknown)
  have s1: "snd (post_save_draft isURL uid b now oid db) = db"
    unfolding post_save_draft_def using sid f1 by (rule saveDraft_not_found(1))
  have s2: "fst (post_save_draft isURL uid b now oid db)
           = fst (post_save_draft isURL uid b now oid (db(k := None)))"
    unfolding post_save_draft_def
    by (simp only: saveDraft_not_found(2) [OF sid f1] saveDraft_not_found(2) [OF sid f2])
  have s3: "accepted isURL b \<longrightarrow>
            post_save_draft isURL uid b now oid db = (Inl SessionNotFound, db)"
    using assms by (simp add: post_save_draft_update)
  from p1 p2 s1 s2 s3 show ?thesis by blast
qed

theorem ownership_isolation_witness:
  "[0 \<mapsto> flow Draft] 0 = Some (flow Draft) \<and> user_id (flow Draft) \<noteq> 2
   \<and> req_sessionId (evening (Array [''calm'']) (Some 0)) = Some 0
   \<and> accepted url_standin (evening (Array [''calm'']) (Some 0))
   \<and> publishSession 2 (Some 0) 10 [0 \<mapsto> flow Draft] = (Inl SessionNotFound, [0 \<mapsto> flow Draft])
   \<and> post_save_draft url_standin 2 (evening (Array [''calm'']) (Some 0)) 10 7 [0 \<mapsto> flow Draft]
       = (Inl SessionNotFound, [0 \<mapsto> flow Draft])"
proof -
  have a: "accepted url_standin (evening (Array [''calm'']) (Some 0))"
    by (simp add: accepted_def required_ok_def url_standin_def tags_or_empty_def trim_def is_space_def)
  have h: "[0 \<mapsto> flow Draft] 0 = Some (flow Draft)" "user_id (flow Draft) \<noteq> 2"
    "req_sessionId (evening (Array [''calm'']) (Some 0)) = Some 0"
    by simp_all
  from ownership_isolation [where db = "[0 \<mapsto> flow Draft]" and k = 0 and r = "flow Draft"
      and uid = 2 and b = "evening (Array [''calm'']) (Some 0)" and now = 10
      and isURL = url_standin and oid = 7] a h
  show ?thesis
    by simp
qed

section \<open>Publishing again\<close>

text \<open>
  C4. Publishing a record that is already published, by its owner, succeeds: the answer
  is the session, its status is published as before, its updated_at is the time of the
  request, and nothing else in the record or in the store changes.
\<close>

theorem publish_idempotent:
  assumes "db k = Some r" and "user_id r = uid" and "status r = Published"
  shows "publishSession uid (Some k) now db
           = (Inr (r\<lparr>updated_at := now\<rparr>), db(k \<mapsto> r\<lparr>updated_at := now\<rparr>))
       \<and> status (r\<lparr>updated_at := now\<rparr>) = Published
       \<and> updated_at (r\<lparr>updated_at := now\<rparr>) = now"
proof -
  have e: "r\<lparr>status := Published, updated_at := now\<rparr> = r\<lparr>updated_at := now\<rparr>"
    using assms(3) by (cases r) simp
  have "findOneAndUpdate k uid (\<lambda>r. r\<lparr>status := Published, updated_at := now\<rparr>) db
          = (Some (r\<lparr>updated_at := now\<rparr>), db(k \<mapsto> r\<lparr>updated_at := now\<rparr>))"
    using assms(1,2) by (simp only: findOneAndUpdate_def e option.case simp_thms if_True)
  then show ?thesis
    using assms(3) by (simp add: publishSession_def respond_def)
qed

theorem publish_idempotent_witness:
  "[0 \<mapsto> flow Published] 0 = Some (flow Published) \<and> user_id (flow Published) = 1
   \<and> status (flow Published) = Published
   \<and> publishSession 1 (Some 0) 20 [0 \<mapsto> flow Published]
       = (Inr ((flow Published)\<lparr>updated_at := 20\<rparr>), [0 \<mapsto> (flow Published)\<lparr>updated_at := 20\<rparr>])"
proof -
  have h: "[0 \<mapsto> flow Published] 0 = Some (flow Published)" "user_id (flow Published) = 1"
    "status (flow Published) = Published"
    by simp_all
  from publish_idempotent [where db = "[0 \<mapsto> flow Published]" and k = 0
      and r = "flow Published" and uid = 1 and now = 20] h
  show ?thesis
    by simp
qed

section \<open>Saving the same draft twice\<close>

lemma written_written: "written b now2 (written b now1 r) = written b now2 r"
  by (simp add: written_def)

text \<open>
  C5. For a stored record, its owner and a request with the record's id that passes
  validation: the request succeeds, and sent a second time it succeeds again. After
  each of the two calls the record holds the same title, tags, json_file_url and owner
  (the request's values, trimmed, and the caller), and the store holds the same ids as
  before: the record is overwritten and no record is added.
\<close>

theorem save_draft_idempotent:
  assumes "db k = Some r" and "user_id r = uid" and "req_sessionId b = Some k"
    and "accepted isURL b"
  shows "post_save_draft isURL uid b now1 oid1 db
           = (Inr (written b now1 r), db(k \<mapsto> written b now1 r))
       \<and> post_save_draft isURL uid b now2 oid2 (db(k \<mapsto> written b now1 r))
           = (Inr (written b now2 r), db(k \<mapsto> written b now2 r))
       \<and> persisted (written b now2 r) = persisted (written b now1 r)
       \<and> persisted (written b now1 r)
           = (trim (req_title b), map trim (tags_or_empty (req_tags b)),
              trim (req_json_file_url b), uid)
       \<and> dom (db(k \<mapsto> written b now1 r)) = dom db
       \<and> dom (db(k \<mapsto> written b now2 r)) = dom db"
proof -
  have a: "post_save_draft isURL uid b now1 oid1 db
           = (Inr (written b now1 r), db(k \<mapsto> written b now1 r))"
    using assms by (simp add: post_save_draft_update)
  have o: "user_id (written b now1 r) = uid"
    using assms(2) by (simp add: written_def)
  have b: "post_save_draft isURL uid b now2 oid2 (db(k \<mapsto> written b now1 r))
           = (Inr (written b now2 r), db(k \<mapsto> written b now2 r))"
    using assms(3,4) o by (simp add: post_save_draft_update written_written)
  have c: "persisted (written b now2 r) = persisted (written b now1 r)"
    by (simp add: persisted_def written_def)
  have d: "persisted (written b now1 r)
           = (trim (req_title b), map trim (tags_or_empty (req_tags b)),
              trim (req_json_file_url b), uid)"
    using assms(2) by (simp add: persisted_def written_def)
  have e: "dom (db(k \<mapsto> written b now1 r)) = dom db" "dom (db(k \<mapsto> written b now2 r)) = dom db"
    using assms(1) by auto
  from a b c d e show ?thesis by blast
qed

theorem save_draft_idempotent_witness:
  "[0 \<mapsto> flow Draft] 0 = Some (flow Draft) \<and> user_id (flow Draft) = 1
   \<and> req_sessionId (evening (Array [''calm'']) (Some 0)) = Some 0
   \<and> accepted url_standin (evening (Array [''calm'']) (Some 0))
   \<and> post_save_draft url_standin 1 (evening (Array [''calm'']) (Some 0)) 10 7 [0 \<mapsto> flow Draft]
       = (Inr (written (evening (Array [''calm'']) (Some 0)) 10 (flow Draft)),
          [0 \<mapsto> written (evening (Array [''calm'']) (Some 0)) 10 (flow Draft)])
   \<and> persisted (written (evening (Array [''calm'']) (Some 0)) 10 (flow Draft))
       = (''Evening Flow'', [''calm''], ''https://example.com/z.json'', 1)"
proof -
  have a: "accepted url_standin (evening (Array [''calm'']) (Some 0))"
    by (simp add: accepted_def required_ok_def url_standin_def tags_or_empty_def trim_def is_space_def)
  have h: "[0 \<mapsto> flow Draft] 0 = Some (flow Draft)" "user_id (flow Draft) = 1"
    "req_sessionId (evening (Array [''calm'']) (Some 0)) = Some 0"
    by simp_all
  have t: "trim ''Evening Flow '' = ''Evening Flow''" "trim ''https://example.com/z.json'' = ''https://example.com/z.json''"
    "trim ''calm'' = ''calm''"
    by (simp_all add: trim_def is_space_def)
  from save_draft_idempotent [where db = "[0 \<mapsto> flow Draft]" and k = 0 and r = "flow Draft"
      and uid = 1 and b = "evening (Array [''calm'']) (Some 0)" and isURL = url_standin
      and ?now1.0 = 10 and ?oid1.0 = 7 and ?now2.0 = 11 and ?oid2.0 = 8] a h
  show ?thesis
    by (simp add: t tags_or_empty_def)
qed

section \<open>Oversized fields\<close>

text \<open>
  A title that is longer than 200 after trimming, counted in characters as the chain
  counts it, is refused by the validation chain.
\<close>

lemma oversized_title_rejected:
  assumes "200 < length (trim (req_title b))"
  shows "post_save_draft isURL uid b now oid db = (Inl ValidationFailed, db)"
proof -
  from assms have "fst (sessionValidation isURL b) \<noteq> []"
    by (simp add: sessionValidation_def Let_def)
  then show ?thesis
    unfolding post_save_draft_def by (rule saveDraft_errors)
qed

text \<open>
  The chain checks of the tags only that they are an array. A tag that is longer than
  50 after trimming is met by the schema's validator, whose failure the controller's
  catch-all turns into the answer 500; the store is as before.
\<close>

lemma oversized_tag_server_error:
  assumes "required_ok isURL b" and "req_tags b = Array xs" and "x \<in> set xs"
    and "50 < length (trim x)"
  shows "post_save_draft isURL uid b now oid db = (Inl ServerError, db)"
proof -
  have e: "fst (sessionValidation isURL b) = []"
    using assms(1,2) by (simp add: required_ok_def url_standin_def sessionValidation_def Let_def)
  have "\<not> list_all (\<lambda>x. length x \<le> 50) (map trim xs)"
    using assms(3,4) by (auto simp: list_all_iff not_le)
  then have v: "\<not> validators_ok (trim (req_title b)) (map trim (tags_or_empty (req_tags b)))
      (trim (req_json_file_url b))"
    using assms(2) by (simp add: validators_ok_def tags_or_empty_def)
  show ?thesis
    using e v
    by (simp add: post_save_draft_def saveDraft_def snd_sessionValidation trim_trim Let_def
        split: option.splits)
qed

text \<open>
  C9. The claim asks for the validation error for a tag longer than 50. Take a request
  whose only tag has 51 characters, with a valid title and a URL that the URL check
  accepts, with or without a session id: the answer is the server error 500, not the
  validation error 400. Nothing is written.
\<close>

theorem oversized_tag_is_not_a_validation_error:
  assumes "isURL ''https://example.com/y.json''"
  shows "post_save_draft isURL uid
     \<lparr>req_title = ''Morning Flow'',
      req_tags = Array [''aaaaaaaaaaaaaaaaaaaaaaaaaaaaaaaaaaaaaaaaaaaaaaaaaaa''],
      req_json_file_url = ''https://example.com/y.json'', req_sessionId = k\<rparr> now oid db
   = (Inl ServerError, db)
   \<and> length ''aaaaaaaaaaaaaaaaaaaaaaaaaaaaaaaaaaaaaaaaaaaaaaaaaaa'' = 51"
proof -
  have u: "trim ''https://example.com/y.json'' = ''https://example.com/y.json''"
    by (simp add: trim_def is_space_def)
  have r: "required_ok isURL \<lparr>req_title = ''Morning Flow'',
      req_tags = Array [''aaaaaaaaaaaaaaaaaaaaaaaaaaaaaaaaaaaaaaaaaaaaaaaaaaa''],
      req_json_file_url = ''https://example.com/y.json'', req_sessionId = k\<rparr>"
    using assms by (simp add: required_ok_def u) (simp add: trim_def is_space_def)
  have t: "50 < length (trim ''aaaaaaaaaaaaaaaaaaaaaaaaaaaaaaaaaaaaaaaaaaaaaaaaaaa'')"
    by (simp add: trim_def is_space_def)
  show ?thesis
    using oversized_tag_server_error [OF r _ _ t] by simp
qed

theorem oversized_tag_is_not_a_validation_error_witness:
  "url_standin ''https://example.com/y.json''
   \<and> post_save_draft url_standin 1
     \<lparr>req_title = ''Morning Flow'',
      req_tags = Array [''aaaaaaaaaaaaaaaaaaaaaaaaaaaaaaaaaaaaaaaaaaaaaaaaaaa''],
      req_json_file_url = ''https://example.com/y.json'', req_sessionId = None\<rparr> 10 0 Map.empty
   = (Inl ServerError, Map.empty)"
proof -
  have h: "url_standin ''https://example.com/y.json''"
    by (simp add: url_standin_def)
  from oversized_tag_is_not_a_validation_error [where isURL = url_standin and uid = 1
      and k = None and now = 10 and oid = 0 and db = Map.empty] h
  show ?thesis by blast
qed

section \<open>A request without tags\<close>

text \<open>
  In the controller alone, once the validation result is empty, an absent and a falsy
  tags value are both replaced by the empty list.
\<close>

lemma controller_tags_default:
  assumes "req_tags b = Absent \<or> req_tags b = Falsy"
  shows "tags (written b now r) = []"
  using assms by (auto simp: written_def tags_or_empty_def)

text \<open>
  C10, as stated, fails for a falsy value: the request below carries a falsy tags value
  and the id of the caller's own record; it is refused by the validation chain, and the
  record keeps its tag.
\<close>

theorem falsy_tags_counterexample:
  "fst (post_save_draft url_standin 1 (evening Falsy (Some 0)) 10 7 [0 \<mapsto> flow Draft])
     = Inl ValidationFailed
   \<and> map_option tags (snd (post_save_draft url_standin 1 (evening Falsy (Some 0)) 10 7
        [0 \<mapsto> flow Draft]) 0) = Some [''yoga'']"
proof -
  have "fst (sessionValidation url_standin (evening Falsy (Some 0))) \<noteq> []"
    by (simp add: sessionValidation_def Let_def)
  then have "post_save_draft url_standin 1 (evening Falsy (Some 0)) 10 7 [0 \<mapsto> flow Draft]
      = (Inl ValidationFailed, [0 \<mapsto> flow Draft])"
    unfolding post_save_draft_def by (rule saveDraft_errors)
  then show ?thesis by simp
qed

text \<open>
  C10, amended. For a stored record, its owner, and a request with the record's id
  whose title and json_file_url pass validation: if the request omits the tags field,
  the request succeeds and the stored tags become the empty list; if it carries a falsy
  tags value, it is refused with the validation error and the store is as before.
\<close>

theorem omitted_tags_overwritten:
  assumes "db k = Some r" and "user_id r = uid" and "req_sessionId b = Some k"
    and "required_ok isURL b"
  shows "(req_tags b = Absent \<longrightarrow>
            post_save_draft isURL uid b now oid db
              = (Inr (written b now r), db(k \<mapsto> written b now r))
            \<and> tags (written b now r) = [])
       \<and> (req_tags b = Falsy \<longrightarrow>
            post_save_draft isURL uid b now oid db = (Inl ValidationFailed, db))"
proof (intro conjI impI)
  assume a: "req_tags b = Absent"
  with assms(4) have "accepted isURL b"
    by (simp add: accepted_def tags_or_empty_def)
  with assms show "post_save_draft isURL uid b now oid db
      = (Inr (written b now r), db(k \<mapsto> written b now r))"
    by (simp add: post_save_draft_update)
  from a show "tags (written b now r) = []"
    by (simp add: controller_tags_default)
next
  assume "req_tags b = Falsy"
  then have "fst (sessionValidation isURL b) \<noteq> []"
    by (simp add: sessionValidation_def Let_def)
  then show "post_save_draft isURL uid b now oid db = (Inl ValidationFailed, db)"
    unfolding post_save_draft_def by (rule saveDraft_errors)
qed

theorem omitted_tags_overwritten_witness:
  "[0 \<mapsto> flow Draft] 0 = Some (flow Draft) \<and> user_id (flow Draft) = 1
   \<and> req_sessionId (evening Absent (Some 0)) = Some 0
   \<and> required_ok url_standin (evening Absent (Some 0))
   \<and> req_tags (evening Absent (Some 0)) = Absent
   \<and> post_save_draft url_standin 1 (evening Absent (Some 0)) 10 7 [0 \<mapsto> flow Draft]
       = (Inr (written (evening Absent (Some 0)) 10 (flow Draft)),
          [0 \<mapsto> written (evening Absent (Some 0)) 10 (flow Draft)])
   \<and> tags (written (evening Absent (Some 0)) 10 (flow Draft)) = []
   \<and> tags (flow Draft) = [''yoga'']"
proof -
  have a: "required_ok url_standin (evening Absent (Some 0))"
    by (simp add: required_ok_def url_standin_def trim_def is_space_def)
  have h: "[0 \<mapsto> flow Draft] 0 = Some (flow Draft)" "user_id (flow Draft) = 1"
    "req_sessionId (evening Absent (Some 0)) = Some 0"
    by simp_all
  from omitted_tags_overwritten [where db = "[0 \<mapsto> flow Draft]" and k = 0 and r = "flow Draft"
      and uid = 1 and b = "evening Absent (Some 0)" and isURL = url_standin
      and now = 10 and oid = 7] a h
  show ?thesis
    by simp
qed

section \<open>The auto-save timer\<close>

lemma elapse_idle: "timer (ed w) = None \<Longrightarrow> elapse ev until w = w\<lparr>clock := until\<rparr>"
  by (subst elapse.simps) simp

lemma elapse_not_due:
  "timer (ed w) = Some t \<Longrightarrow> until < due t \<Longrightarrow> elapse ev until w = w\<lparr>clock := until\<rparr>"
  by (subst elapse.simps) simp

lemma elapse_due:
  "timer (ed w) = Some t \<Longrightarrow> due t \<le> until \<Longrightarrow> elapse ev until w = elapse ev until (fire ev t w)"
  by (subst elapse.simps) simp

lemma saveDraft_editor_empty:
  "trim (f_title d) = [] \<or> trim (f_json_file_url d) = [] \<Longrightarrow> saveDraft_editor ev d cs w = w"
  by (simp add: saveDraft_editor_def)

lemma settle_same: "settle w w = w"
  by (simp add: settle_def)

lemma fire_empty:
  assumes "trim (f_title (t_data t)) = [] \<or> trim (f_json_file_url (t_data t)) = []"
  shows "fire ev t w = w\<lparr>clock := due t, ed := (ed w)\<lparr>timer := None\<rparr>\<rparr>"
  using assms by (simp add: fire_def Let_def saveDraft_editor_empty settle_same)

lemma handleChange_frame:
  "sent (handleChange name v w) = sent w"
  "server (handleChange name v w) = server w"
  "clock (handleChange name v w) = clock w"
  "currentSessionId (ed (handleChange name v w)) = currentSessionId (ed w)"
  "initialLoad (ed (handleChange name v w)) = initialLoad (ed w)"
  "mounted (ed (handleChange name v w)) = mounted (ed w)"
  by (simp_all add: handleChange_def autosave_effect_def Let_def)

lemma handleChange_timer:
  "timer (ed (handleChange name v w)) =
     (if initialLoad (ed w) \<or>
         (trim (f_title (formData (ed (handleChange name v w)))) = [] \<and>
          trim (f_json_file_url (formData (ed (handleChange name v w)))) = [])
      then None
      else Some \<lparr>due = clock w + 5000, t_data = formData (ed (handleChange name v w)),
                 t_sessionId = currentSessionId (ed w)\<rparr>)"
  by (simp add: handleChange_def autosave_effect_def Let_def)

text \<open>
  C7, as stated, fails: in a new editor the user types a title and leaves the URL empty;
  a required field is empty, and the edit arms the timer.
\<close>

theorem empty_field_arms_timer_counterexample:
  "trim (f_json_file_url (formData (ed (handleChange Title ''A'' world0)))) = []
   \<and> timer (ed (handleChange Title ''A'' world0))
       = Some \<lparr>due = 5000, t_data = \<lparr>f_title = ''A'', f_tags = [], f_json_file_url = []\<rparr>,
               t_sessionId = None\<rparr>"
  by (simp add: handleChange_def autosave_effect_def Let_def trim_def is_space_def)

text \<open>
  C7, amended. An edit during the initial load, and an edit after which title and
  json_file_url are both empty after trimming, leaves no timer pending. An edit after
  which one of the two is empty may arm the timer, but however long the user then
  waits, no request is sent and nothing is stored: no auto-save goes out while a
  required field is empty.
\<close>

theorem no_autosave_while_required_empty:
  fixes w :: world and name :: field and v :: string
  defines "w' \<equiv> handleChange name v w"
  shows "(initialLoad (ed w) \<or>
          (trim (f_title (formData (ed w'))) = [] \<and> trim (f_json_file_url (formData (ed w'))) = [])
            \<longrightarrow> timer (ed w') = None)
       \<and> (trim (f_title (formData (ed w'))) = [] \<or> trim (f_json_file_url (formData (ed w'))) = []
            \<longrightarrow> sent (step ev (Wait n) w') = sent w \<and> server (step ev (Wait n) w') = server w)"
proof (rule conjI; rule impI)
  assume "initialLoad (ed w) \<or>
    (trim (f_title (formData (ed w'))) = [] \<and> trim (f_json_file_url (formData (ed w'))) = [])"
  then show "timer (ed w') = None"
    unfolding w'_def by (subst handleChange_timer) simp
next
  assume e: "trim (f_title (formData (ed w'))) = [] \<or> trim (f_json_file_url (formData (ed w'))) = []"
  have fr: "sent w' = sent w" "server w' = server w"
    by (simp_all add: w'_def handleChange_frame)
  have el: "sent (elapse ev (clock w' + n) w') = sent w' \<and> server (elapse ev (clock w' + n) w') = server w'"
  proof (cases "timer (ed w')")
    case None
    then show ?thesis by (simp add: elapse_idle)
  next
    case (Some t)
    then have d: "t_data t = formData (ed w')"
      unfolding w'_def by (subst (asm) handleChange_timer) (auto split: if_splits)
    show ?thesis
    proof (cases "due t \<le> clock w' + n")
      case True
      have "fire ev t w' = w'\<lparr>clock := due t, ed := (ed w')\<lparr>timer := None\<rparr>\<rparr>"
        using e d by (simp add: fire_empty)
      then show ?thesis
        using Some True by (simp add: elapse_due elapse_idle)
    next
      case False
      then show ?thesis using Some by (simp add: elapse_not_due)
    qed
  qed
  from el fr show "sent (step ev (Wait n) w') = sent w \<and> server (step ev (Wait n) w') = server w"
    by simp
qed

theorem no_autosave_while_required_empty_witness:
  "trim (f_title (formData (ed (handleChange Title ''  '' world0)))) = []
   \<and> trim (f_json_file_url (formData (ed (handleChange Title ''  '' world0)))) = []
   \<and> timer (ed (handleChange Title ''  '' world0)) = None
   \<and> trim (f_json_file_url (formData (ed (handleChange Title ''A'' world0)))) = []
   \<and> sent (step env0 (Wait 6000) (handleChange Title ''A'' world0)) = []
   \<and> server (step env0 (Wait 6000) (handleChange Title ''A'' world0)) = Map.empty"
proof -
  have a: "trim (f_title (formData (ed (handleChange Title ''  '' world0)))) = []"
    "trim (f_json_file_url (formData (ed (handleChange Title ''  '' world0)))) = []"
    "trim (f_json_file_url (formData (ed (handleChange Title ''A'' world0)))) = []"
    by (simp_all add: handleChange_def autosave_effect_def Let_def trim_def is_space_def)
  from a no_autosave_while_required_empty [of world0 Title "''  ''" env0 0]
    no_autosave_while_required_empty [of world0 Title "''A''" env0 6000]
  show ?thesis
    by simp
qed

section \<open>Debounce\<close>

lemma saveDraft_editor_sent:
  assumes "trim (f_title d) \<noteq> []" and "trim (f_json_file_url d) \<noteq> []"
  shows "sent (saveDraft_editor ev d cs w) = sent w @ [PostSaveDraft (request_body d cs)]"
  using assms by (simp add: saveDraft_editor_def Let_def split: sum.splits)

lemma settle_sent: "sent (settle w w') = sent w'"
  by (simp add: settle_def)

lemma fire_sent:
  assumes "trim (f_title (t_data t)) \<noteq> []" and "trim (f_json_file_url (t_data t)) \<noteq> []"
  shows "sent (fire ev t w) = sent w @ [PostSaveDraft (request_body (t_data t) (t_sessionId t))]"
  using assms by (simp add: fire_def Let_def settle_sent saveDraft_editor_sent)

lemma edited_first:
  assumes "mounted (ed w)" and "initialLoad (ed w) = False"
  shows "edited w (step ev (Change name v) w)"
  using assms by (simp add: edited_def handleChange_frame handleChange_timer)

lemma edited_wait:
  assumes "edited w0 w" and "n < 5000"
  shows "step ev (Wait n) w = w\<lparr>clock := clock w + n\<rparr>"
proof (cases "timer (ed w)")
  case None
  then show ?thesis by (simp add: elapse_idle)
next
  case (Some t)
  with assms(1) have "due t = clock w + 5000"
    by (auto simp: edited_def split: if_splits)
  with assms(2) Some show ?thesis by (simp add: elapse_not_due)
qed

lemma edited_next:
  assumes "edited w0 w" and "n < 5000"
  shows "edited w0 (step ev (Change name v) (step ev (Wait n) w))"
proof -
  have m: "mounted (ed (w\<lparr>clock := clock w + n\<rparr>))" "initialLoad (ed (w\<lparr>clock := clock w + n\<rparr>)) = False"
    using assms(1) by (simp_all add: edited_def)
  have "edited (w\<lparr>clock := clock w + n\<rparr>) (step ev (Change name v) (w\<lparr>clock := clock w + n\<rparr>))"
    using m by (rule edited_first)
  then have "edited w0 (step ev (Change name v) (w\<lparr>clock := clock w + n\<rparr>))"
    using assms(1) by (simp add: edited_def)
  then show ?thesis
    by (simp only: edited_wait [OF assms])
qed

lemma edited_burst:
  assumes "edited w0 w" and "quiet es"
  shows "edited w0 (run ev (burst es) w)"
  using assms
proof (induction es arbitrary: w)
  case Nil
  then show ?case by simp
next
  case (Cons e es)
  obtain n name v where e: "e = (n, name, v)" by (cases e)
  from Cons.prems(2) e have n: "n < 5000" and q: "quiet es"
    by (simp_all add: quiet_def)
  have "edited w0 (step ev (Change name v) (step ev (Wait n) w))"
    using Cons.prems(1) n by (rule edited_next)
  then have "edited w0 (run ev (burst es) (step ev (Change name v) (step ev (Wait n) w)))"
    using q by (rule Cons.IH)
  then show ?case by (simp add: e)
qed

text \<open>
  One edit that types a title and leaves the URL empty arms the timer, but when the
  interval has elapsed, and at any later time, no request has been sent.
\<close>

lemma incomplete_edit_sends_nothing:
  "sent (run env0 [Change Title ''A'', Wait 5000] world0) = []
   \<and> sent (run env0 [Change Title ''A'', Wait 20000] world0) = []"
proof -
  have t: "trim ''A'' = ''A''" "trim [] = []"
    by (simp_all add: trim_def is_space_def)
  have h: "timer (ed (handleChange Title ''A'' world0))
       = Some \<lparr>due = 5000, t_data = \<lparr>f_title = ''A'', f_tags = [], f_json_file_url = []\<rparr>,
               t_sessionId = None\<rparr>"
    by (simp add: handleChange_def autosave_effect_def Let_def t)
  have f: "fire env0 \<lparr>due = 5000, t_data = \<lparr>f_title = ''A'', f_tags = [], f_json_file_url = []\<rparr>,
               t_sessionId = None\<rparr> (handleChange Title ''A'' world0)
       = (handleChange Title ''A'' world0)\<lparr>clock := 5000,
            ed := (ed (handleChange Title ''A'' world0))\<lparr>timer := None\<rparr>\<rparr>"
    using fire_empty [where t = "\<lparr>due = 5000,
        t_data = \<lparr>f_title = ''A'', f_tags = [], f_json_file_url = []\<rparr>, t_sessionId = None\<rparr>"
        and ev = env0 and w = "handleChange Title ''A'' world0"]
    by (simp add: t)
  have "sent (elapse env0 n (handleChange Title ''A'' world0)) = []" if "5000 \<le> n" for n
    using h f that by (simp add: elapse_due elapse_idle handleChange_frame)
  then show ?thesis
    by (simp add: handleChange_frame)
qed

text \<open>
  The first request. In a mounted editor after the initial load, take one edit followed by
  any number of further edits, each less than 5000 after the one before, such that
  after the last edit title and json_file_url are not empty after trimming. Then no
  request is sent during the edits, none before 5000 have passed since the last edit,
  and from then on (up to 10000 after the last edit) exactly one save-draft request has
  been sent, which carries the form as the last edit left it.
\<close>

lemma debounce_coalescing:
  fixes w :: world and ev :: env and name :: field and v :: string
    and es :: "(nat \<times> field \<times> string) list"
  defines "w1 \<equiv> run ev (Change name v # burst es) w"
  assumes "mounted (ed w)" and "initialLoad (ed w) = False" and "quiet es"
    and "trim (f_title (formData (ed w1))) \<noteq> []"
    and "trim (f_json_file_url (formData (ed w1))) \<noteq> []"
  shows "sent w1 = sent w
       \<and> (n < 5000 \<longrightarrow> sent (step ev (Wait n) w1) = sent w)
       \<and> (5000 \<le> n \<and> n < 10000 \<longrightarrow>
            sent (step ev (Wait n) w1)
              = sent w @ [PostSaveDraft (request_body (formData (ed w1)) (currentSessionId (ed w)))])"
proof -
  let ?t = "\<lparr>due = clock w1 + 5000, t_data = formData (ed w1),
             t_sessionId = currentSessionId (ed w)\<rparr>"
  have "edited w (step ev (Change name v) w)"
    using assms(2,3) by (rule edited_first)
  then have "edited w (run ev (burst es) (step ev (Change name v) w))"
    using assms(4) by (rule edited_burst)
  then have e: "edited w w1"
    by (simp add: w1_def)
  then have s: "sent w1 = sent w"
    by (simp add: edited_def)
  from e assms(5) have t: "timer (ed w1) = Some ?t"
    by (simp add: edited_def)
  have early: "sent (step ev (Wait n) w1) = sent w" if "n < 5000"
    using edited_wait [OF e that] s by simp
  have late: "sent (step ev (Wait n) w1)
      = sent w @ [PostSaveDraft (request_body (formData (ed w1)) (currentSessionId (ed w)))]"
    if n: "5000 \<le> n \<and> n < 10000"
  proof -
    have f: "sent (fire ev ?t w1)
        = sent w @ [PostSaveDraft (request_body (formData (ed w1)) (currentSessionId (ed w)))]"
      using assms(5,6) s by (simp add: fire_sent)
    have d: "elapse ev (clock w1 + n) w1 = elapse ev (clock w1 + n) (fire ev ?t w1)"
      using t n by (simp add: elapse_due)
    have "elapse ev (clock w1 + n) (fire ev ?t w1) = (fire ev ?t w1)\<lparr>clock := clock w1 + n\<rparr>"
      using fire_timer [of ev ?t w1]
    proof (elim disjE exE conjE)
      assume "timer (ed (fire ev ?t w1)) = None"
      then show ?thesis by (rule elapse_idle)
    next
      fix t' assume a: "timer (ed (fire ev ?t w1)) = Some t'" and b: "due t' = due ?t + 5000"
      from b n have "clock w1 + n < due t'" by simp
      with a show ?thesis by (rule elapse_not_due)
    qed
    with d f show ?thesis by simp
  qed
  from s early late show ?thesis by blast
qed

lemma debounce_coalescing_example:
  "mounted (ed world0) \<and> initialLoad (ed world0) = False
   \<and> quiet [(1000, JsonFileUrl, ''https://example.com/y.json''), (4999, Tags, ''yoga, calm'')]
   \<and> sent (run env0 (Change Title ''A'' #
          burst [(1000, JsonFileUrl, ''https://example.com/y.json''), (4999, Tags, ''yoga, calm'')]) world0) = []
   \<and> sent (step env0 (Wait 4999) (run env0 (Change Title ''A'' #
          burst [(1000, JsonFileUrl, ''https://example.com/y.json''), (4999, Tags, ''yoga, calm'')]) world0)) = []
   \<and> sent (step env0 (Wait 5000) (run env0 (Change Title ''A'' #
          burst [(1000, JsonFileUrl, ''https://example.com/y.json''), (4999, Tags, ''yoga, calm'')]) world0))
       = [PostSaveDraft \<lparr>req_title = ''A'', req_tags = Array [''yoga'', ''calm''],
            req_json_file_url = ''https://example.com/y.json'', req_sessionId = None\<rparr>]"
proof -
  let ?es = "[(1000, JsonFileUrl, ''https://example.com/y.json''), (4999, Tags, ''yoga, calm'')]"
  let ?w1 = "run env0 (Change Title ''A'' # burst ?es) world0"
  have fd: "formData (ed ?w1)
      = \<lparr>f_title = ''A'', f_tags = ''yoga, calm'', f_json_file_url = ''https://example.com/y.json''\<rparr>"
    by code_simp
  have rb: "request_body \<lparr>f_title = ''A'', f_tags = ''yoga, calm'',
        f_json_file_url = ''https://example.com/y.json''\<rparr> None
      = \<lparr>req_title = ''A'', req_tags = Array [''yoga'', ''calm''],
            req_json_file_url = ''https://example.com/y.json'', req_sessionId = None\<rparr>"
    by code_simp
  have h: "mounted (ed world0)" "initialLoad (ed world0) = False" "quiet ?es"
    "trim (f_title (formData (ed ?w1))) \<noteq> []"
    "trim (f_json_file_url (formData (ed ?w1))) \<noteq> []"
    by (simp_all only: fd) (simp_all add: quiet_def trim_def is_space_def)
  have z: "sent world0 = []" "currentSessionId (ed world0) = None"
    by simp_all
  have n: "(4999::nat) < 5000" "(5000::nat) \<le> 5000 \<and> (5000::nat) < 10000"
    by simp_all
  note A = debounce_coalescing [where ev = env0 and name = Title and v = "''A''" and es = ?es
      and w = world0 and n = 4999, OF h]
  note B = debounce_coalescing [where ev = env0 and name = Title and v = "''A''" and es = ?es
      and w = world0 and n = 5000, OF h]
  from A have a1: "sent ?w1 = []"
    by (simp only: z)
  from A n(1) have a2: "sent (step env0 (Wait 4999) ?w1) = []"
    by (simp only: z simp_thms)
  from B n(2) have b3: "sent (step env0 (Wait 5000) ?w1)
       = [PostSaveDraft \<lparr>req_title = ''A'', req_tags = Array [''yoga'', ''calm''],
            req_json_file_url = ''https://example.com/y.json'', req_sessionId = None\<rparr>]"
    by (simp only: z fd rb simp_thms append_Nil)
  from h(1-3) a1 a2 b3 show ?thesis
    by (intro conjI)
qed

text \<open>
  For a document whose id the editor knows, that request is the only one, however long
  the user waits: the save leaves \<^verbatim>\<open>currentSessionId\<close> as it was and the effect
  does not run again.
\<close>

lemma fire_known_id:
  assumes "t_sessionId t = Some k"
  shows "timer (ed (fire ev t w)) = None"
  using assms
  by (simp add: fire_def Let_def settle_def saveDraft_editor_def split: sum.splits)

lemma debounce_coalescing_known_id:
  fixes w :: world and ev :: env and name :: field and v :: string
    and es :: "(nat \<times> field \<times> string) list"
  defines "w1 \<equiv> run ev (Change name v # burst es) w"
  assumes "mounted (ed w)" and "initialLoad (ed w) = False" and "quiet es"
    and "trim (f_title (formData (ed w1))) \<noteq> []"
    and "trim (f_json_file_url (formData (ed w1))) \<noteq> []"
    and "currentSessionId (ed w) = Some k" and "5000 \<le> n"
  shows "sent (step ev (Wait n) w1)
           = sent w @ [PostSaveDraft (request_body (formData (ed w1)) (Some k))]"
proof -
  let ?t = "\<lparr>due = clock w1 + 5000, t_data = formData (ed w1), t_sessionId = Some k\<rparr>"
  have "edited w (step ev (Change name v) w)"
    using assms(2,3) by (rule edited_first)
  then have "edited w (run ev (burst es) (step ev (Change name v) w))"
    using assms(4) by (rule edited_burst)
  then have e: "edited w w1"
    by (simp add: w1_def)
  then have s: "sent w1 = sent w"
    by (simp add: edited_def)
  from e assms(5,7) have t: "timer (ed w1) = Some ?t"
    by (simp add: edited_def)
  have f: "sent (fire ev ?t w1) = sent w @ [PostSaveDraft (request_body (formData (ed w1)) (Some k))]"
    using assms(5,6) s by (simp add: fire_sent)
  have d: "elapse ev (clock w1 + n) w1 = elapse ev (clock w1 + n) (fire ev ?t w1)"
    using t assms(8) by (simp add: elapse_due)
  have "timer (ed (fire ev ?t w1)) = None"
    by (rule fire_known_id) simp
  then have "elapse ev (clock w1 + n) (fire ev ?t w1) = (fire ev ?t w1)\<lparr>clock := clock w1 + n\<rparr>"
    by (rule elapse_idle)
  with d f show ?thesis by simp
qed

text \<open>
  C6. The claim asks for exactly one save-draft call. In a new editor, whose document
  has no id yet, the user types a title and then a URL. When the interval has elapsed
  the first request is sent and creates the session. Its answer sets
  \<^verbatim>\<open>currentSessionId\<close>, so \<^verbatim>\<open>saveDraft\<close> is a new function, the effect
  runs again and arms a second timeout; one interval later a second request with the
  same values is sent, though the user made no further edit.
\<close>

theorem second_save_for_new_document:
  "sent (run env0
      [Change Title ''A'', Change JsonFileUrl ''https://example.com/y.json'', Wait 9999] world0)
     = [PostSaveDraft \<lparr>req_title = ''A'', req_tags = Array [],
          req_json_file_url = ''https://example.com/y.json'', req_sessionId = None\<rparr>]
   \<and> sent (run env0
      [Change Title ''A'', Change JsonFileUrl ''https://example.com/y.json'', Wait 10000] world0)
     = [PostSaveDraft \<lparr>req_title = ''A'', req_tags = Array [],
          req_json_file_url = ''https://example.com/y.json'', req_sessionId = None\<rparr>,
        PostSaveDraft \<lparr>req_title = ''A'', req_tags = Array [],
          req_json_file_url = ''https://example.com/y.json'', req_sessionId = Some 5000\<rparr>]"
  by code_simp

section \<open>Publishing from the editor\<close>

lemma required_nonempty:
  assumes "required_ok isURL (request_body d cs)"
  shows "trim (f_title d) \<noteq> []" and "trim (f_json_file_url d) \<noteq> []"
  using assms by (auto simp: required_ok_def url_standin_def request_body_def trim_trim)

text \<open>
  When the editor knows the id of a session its user owns, and the pending edit is one
  the backend accepts, publishing first saves the edit and then publishes: the
  published record holds the edit's values.
\<close>

lemma publish_after_flush:
  assumes "hasUnsavedChanges (ed w)" and "currentSessionId (ed w) = Some k"
    and "server w k = Some r" and "user_id r = me ev"
    and "accepted (url_check ev) (request_body (formData (ed w)) (Some k))"
  shows "server (handlePublish ev w) k
           = Some ((written (request_body (formData (ed w)) (Some k)) (clock w) r)
                     \<lparr>status := Published, updated_at := clock w\<rparr>)
       \<and> sent (handlePublish ev w)
           = sent w @ [PostSaveDraft (request_body (formData (ed w)) (Some k)), PostPublish (Some k)]"
proof -
  let ?b = "request_body (formData (ed w)) (Some k)"
  let ?s = "written ?b (clock w) r"
  have ne: "trim (f_title (formData (ed w))) \<noteq> []" "trim (f_json_file_url (formData (ed w))) \<noteq> []"
    using assms(5) by (auto simp: accepted_def dest: required_nonempty)
  have sid: "req_sessionId ?b = Some k"
    by (simp add: request_body_def)
  have post: "post_save_draft (url_check ev) (me ev) ?b (clock w) (mint ev (clock w)) (server w)
      = (Inr ?s, (server w)(k \<mapsto> ?s))"
    using assms(3,4) by (simp add: post_save_draft_update [OF assms(5) sid])
  have sd: "saveDraft_editor ev (formData (ed w)) (Some k) w
      = w\<lparr>server := (server w)(k \<mapsto> ?s), sent := sent w @ [PostSaveDraft ?b],
          ed := (ed w)\<lparr>currentSessionId := currentSessionId (ed w), lastSaved := Some (clock w),
                 hasUnsavedChanges := False, saving := False\<rparr>\<rparr>"
    using ne by (simp add: saveDraft_editor_def Let_def post)
  let ?w1 = "settle w (saveDraft_editor ev (formData (ed w)) (Some k) w)"
  have w1: "server ?w1 = (server w)(k \<mapsto> ?s)" "sent ?w1 = sent w @ [PostSaveDraft ?b]"
    "clock ?w1 = clock w"
    by (simp_all add: sd settle_def)
  have o: "user_id ?s = me ev"
    using assms(4) by (simp add: written_def)
  have pub: "publishSession (me ev) (Some k) (clock w) ((server w)(k \<mapsto> ?s))
      = (Inr (?s\<lparr>status := Published, updated_at := clock w\<rparr>),
         (server w)(k \<mapsto> ?s\<lparr>status := Published, updated_at := clock w\<rparr>))"
    using o by (simp add: publishSession_def findOneAndUpdate_def respond_def)
  show ?thesis
    using ne assms(1,2) by (simp add: handlePublish_def Let_def w1 pub)
qed

text \<open>
  The save of an edit with a tag of 51 characters is refused, whatever the URL check
  says of its URL: by the validation chain if the URL is refused, by the schema's
  validator otherwise. The store is as before.
\<close>

lemma flush_refused:
  "\<exists>e. post_save_draft c uid
     \<lparr>req_title = ''Evening Flow'',
      req_tags = Array [''aaaaaaaaaaaaaaaaaaaaaaaaaaaaaaaaaaaaaaaaaaaaaaaaaaa''],
      req_json_file_url = ''https://example.com/z.json'', req_sessionId = k\<rparr> now oid db
    = (Inl e, db)"
proof (cases "c ''https://example.com/z.json''")
  case True
  have u: "trim ''https://example.com/z.json'' = ''https://example.com/z.json''"
    "trim ''Evening Flow'' = ''Evening Flow''"
    by (simp_all add: trim_def is_space_def)
  have r: "required_ok c \<lparr>req_title = ''Evening Flow'',
      req_tags = Array [''aaaaaaaaaaaaaaaaaaaaaaaaaaaaaaaaaaaaaaaaaaaaaaaaaaa''],
      req_json_file_url = ''https://example.com/z.json'', req_sessionId = k\<rparr>"
    using True by (simp add: required_ok_def u)
  have t: "50 < length (trim ''aaaaaaaaaaaaaaaaaaaaaaaaaaaaaaaaaaaaaaaaaaaaaaaaaaa'')"
    by (simp add: trim_def is_space_def)
  show ?thesis
    using oversized_tag_server_error [OF r _ _ t] by simp
next
  case False
  have u: "trim ''https://example.com/z.json'' = ''https://example.com/z.json''"
    by (simp add: trim_def is_space_def)
  have "fst (sessionValidation c \<lparr>req_title = ''Evening Flow'',
      req_tags = Array [''aaaaaaaaaaaaaaaaaaaaaaaaaaaaaaaaaaaaaaaaaaaaaaaaaaa''],
      req_json_file_url = ''https://example.com/z.json'', req_sessionId = k\<rparr>) \<noteq> []"
    using False by (simp add: sessionValidation_def Let_def u)
  then show ?thesis
    unfolding post_save_draft_def by (simp add: saveDraft_errors)
qed

text \<open>
  C1. The claim asks that the published record holds the pending edit. The editor's
  \<^verbatim>\<open>saveDraft\<close> catches every failure of its request and returns normally, so
  \<^verbatim>\<open>handlePublish\<close> goes on to publish after a save that failed. Here the stored
  draft is Morning Flow, the pending edit is Evening Flow with a tag of 51 characters;
  the save is sent and refused, the publish request follows, and the record that is
  published is Morning Flow, the earlier revision. This holds for every URL check.
\<close>

theorem publish_after_failed_flush:
  "server (handlePublish \<lparr>url_check = c, me = 1, mint = (\<lambda>n. n)\<rparr>
      \<lparr>ed = editing ''aaaaaaaaaaaaaaaaaaaaaaaaaaaaaaaaaaaaaaaaaaaaaaaaaaa'' (Some 0),
       server = [0 \<mapsto> flow Draft], clock = 20, sent = []\<rparr>) 0
     = Some \<lparr>sid = 0, user_id = 1, title = ''Morning Flow'', tags = [''yoga''],
         json_file_url = ''https://example.com/y.json'', status = Published, created_at = 5,
         updated_at = 20\<rparr>
   \<and> sent (handlePublish \<lparr>url_check = c, me = 1, mint = (\<lambda>n. n)\<rparr>
      \<lparr>ed = editing ''aaaaaaaaaaaaaaaaaaaaaaaaaaaaaaaaaaaaaaaaaaaaaaaaaaa'' (Some 0),
       server = [0 \<mapsto> flow Draft], clock = 20, sent = []\<rparr>)
     = [PostSaveDraft \<lparr>req_title = ''Evening Flow'',
          req_tags = Array [''aaaaaaaaaaaaaaaaaaaaaaaaaaaaaaaaaaaaaaaaaaaaaaaaaaa''],
          req_json_file_url = ''https://example.com/z.json'', req_sessionId = Some 0\<rparr>,
        PostPublish (Some 0)]"
proof -
  let ?d = "\<lparr>f_title = ''Evening Flow'',
      f_tags = ''aaaaaaaaaaaaaaaaaaaaaaaaaaaaaaaaaaaaaaaaaaaaaaaaaaa'',
      f_json_file_url = ''https://example.com/z.json''\<rparr>"
  let ?b = "\<lparr>req_title = ''Evening Flow'',
      req_tags = Array [''aaaaaaaaaaaaaaaaaaaaaaaaaaaaaaaaaaaaaaaaaaaaaaaaaaa''],
      req_json_file_url = ''https://example.com/z.json'', req_sessionId = Some 0\<rparr>"
  have rb: "request_body ?d (Some 0) = ?b"
    by code_simp
  have ne: "trim (f_title ?d) \<noteq> []" "trim (f_json_file_url ?d) \<noteq> []"
    by (simp_all add: trim_def is_space_def)
  obtain e where p: "post_save_draft c 1 ?b 20 20 [0 \<mapsto> flow Draft] = (Inl e, [0 \<mapsto> flow Draft])"
    using flush_refused [of c 1 "Some 0" 20 20 "[0 \<mapsto> flow Draft]"] by blast
  have pub: "publishSession 1 (Some 0) 20 [0 \<mapsto> flow Draft]
      = (Inr ((flow Draft)\<lparr>status := Published, updated_at := 20\<rparr>),
         [0 \<mapsto> (flow Draft)\<lparr>status := Published, updated_at := 20\<rparr>])"
    by (simp add: publishSession_def findOneAndUpdate_def respond_def)
  show ?thesis
    using ne
    by (simp add: handlePublish_def Let_def saveDraft_editor_def settle_def
        rb [simplified] p [simplified] pub [simplified])
qed

text \<open>
  A new document, which has no id before its first save: the awaited save creates the
  draft, but the handler's \<^verbatim>\<open>currentSessionId\<close> is still the null of its
  render; the publish request carries no id and is refused, and the draft stays a draft.
\<close>

lemma publish_with_stale_id:
  "server (handlePublish env0 \<lparr>ed = editing ''calm'' None, server = Map.empty, clock = 20, sent = []\<rparr>) 20
     = Some \<lparr>sid = 20, user_id = 1, title = ''Evening Flow'', tags = [''calm''],
         json_file_url = ''https://example.com/z.json'', status = Draft, created_at = 20, updated_at = 20\<rparr>
   \<and> sent (handlePublish env0 \<lparr>ed = editing ''calm'' None, server = Map.empty, clock = 20, sent = []\<rparr>)
     = [PostSaveDraft \<lparr>req_title = ''Evening Flow'', req_tags = Array [''calm''],
          req_json_file_url = ''https://example.com/z.json'', req_sessionId = None\<rparr>,
        PostPublish None]"
  by code_simp

end
